theory Spec2Isabelle
  imports Main "HOL-Library.Word" "HOL-Library.Sublist"
begin

section \<open>JavaScript values\<close>

text \<open>
  The three components (\<open>App\<close>, \<open>ChatInterface\<close>, \<open>Dashboard\<close>) pass parsed JSON around
  without checking its shape, so payloads are modelled as untyped JavaScript values.
  A string is a sequence of UTF-16 code units. Numbers are opaque to every code path
  modelled here (only their truthiness could matter), so they are carried as integers.
\<close>

type_synonym jsstring = "16 word list"

definition js :: "string \<Rightarrow> jsstring" where
  "js s = map of_char s"

datatype jsval =
    JUndefined
  | JNull
  | JBool bool
  | JNum int
  | JStr jsstring
  | JArr "jsval list"
  | JObj "(jsstring \<times> jsval) list"

text \<open>
  What a promise can reject with, or a statement throw: a transport failure, a
  non-success HTTP status (axios rejects on those), a body that is not JSON, the
  \<open>TypeError\<close> of reading a property of \<open>null\<close> or \<open>undefined\<close> or of calling
  something that is not a function, and the error React throws when it is given an
  object as a child.
\<close>

datatype error = NetworkError | HttpStatus nat | SyntaxError | TypeError | InvalidChild

type_synonym log = "string \<times> error"

text \<open>JavaScript's \<open>ToBoolean\<close>, as used by \<open>!\<close>, \<open>&&\<close> and \<open>||\<close>.\<close>

fun truthy :: "jsval \<Rightarrow> bool" where
  "truthy JUndefined = False"
| "truthy JNull = False"
| "truthy (JBool b) = b"
| "truthy (JNum n) = (n \<noteq> 0)"
| "truthy (JStr s) = (s \<noteq> [])"
| "truthy (JArr xs) = True"
| "truthy (JObj kvs) = True"

text \<open>
  The member read \<open>v.k\<close>, for the property names the source reads from payloads
  (\<open>answer\<close>, \<open>data\<close>, \<open>alerts\<close>, \<open>risks\<close>, \<open>suppliers\<close>, \<open>agents_initialized\<close>,
  \<open>description\<close>, \<open>days_until_stockout\<close>, \<open>urgency\<close>): none of them is defined on a
  prototype, so the read throws on \<open>null\<close> and \<open>undefined\<close>, finds an own property
  of an object, and is \<open>undefined\<close> everywhere else.
\<close>

fun member :: "jsval \<Rightarrow> jsstring \<Rightarrow> error + jsval" where
  "member JUndefined k = Inl TypeError"
| "member JNull k = Inl TypeError"
| "member (JObj kvs) k = Inr (case map_of kvs k of None \<Rightarrow> JUndefined | Some v \<Rightarrow> v)"
| "member v k = Inr JUndefined"

text \<open>
  \<open>String.prototype.trim\<close> removes the code units of ECMAScript's \<open>WhiteSpace\<close> and
  \<open>LineTerminator\<close> productions from both ends.
\<close>

definition is_whitespace :: "16 word \<Rightarrow> bool" where
  "is_whitespace c =
     (c \<in> set [0x0009, 0x000A, 0x000B, 0x000C, 0x000D, 0x0020, 0x00A0, 0x1680,
                0x2028, 0x2029, 0x202F, 0x205F, 0x3000, 0xFEFF]
      \<or> (0x2000 \<le> c \<and> c \<le> 0x200A))"

definition js_trim :: "jsstring \<Rightarrow> jsstring" where
  "js_trim s = rev (dropWhile is_whitespace (rev (dropWhile is_whitespace s)))"

text \<open>
  \<open>Array.prototype.slice(start, end)\<close> with integer arguments: a negative index counts
  from the end, both are clamped to the array, and an empty range gives the empty array.
\<close>

definition relative_index :: "int \<Rightarrow> nat \<Rightarrow> nat" where
  "relative_index i len =
     (if i < 0 then nat (max (int len + i) 0) else nat (min i (int len)))"

definition js_slice :: "int \<Rightarrow> int \<Rightarrow> 'a list \<Rightarrow> 'a list" where
  "js_slice start end xs =
     (let k = relative_index start (length xs);
          final = relative_index end (length xs)
      in take (final - k) (drop k xs))"


text \<open>What a component leaves outside its own state: the lines it writes to the console.\<close>

record effects =
  console :: "log list"


section \<open>App\<close>

datatype tab = Chat | DashboardTab

record app = effects +
  activeTab :: tab
  status :: jsval

definition App_init :: app where
  "App_init = \<lparr>console = [], activeTab = Chat, status = JNull\<rparr>"

definition setActiveTab :: "tab \<Rightarrow> app \<Rightarrow> app" where
  "setActiveTab t s = s\<lparr>activeTab := t\<rparr>"

text \<open>
  What \<open>fetch\<close> fulfils with: a response of any HTTP status (\<open>fetch\<close> rejects on
  transport failures only), whose \<open>json()\<close> gives the parsed body or rejects.
\<close>

record response =
  http_status :: nat
  json :: "error + jsval"

text \<open>
  The effect run at mount, from the settling of \<open>fetch('/api/health')\<close> on: the two
  \<open>then\<close> handlers and the \<open>catch\<close> handler. The first component is how the promise
  that the chain returns settles.
\<close>

definition checkBackendStatus :: "error + response \<Rightarrow> app \<Rightarrow> (error + unit) \<times> app" where
  "checkBackendStatus fetched s =
     (case (case fetched of Inl e \<Rightarrow> Inl e | Inr res \<Rightarrow> json res) of
        Inr d \<Rightarrow> (Inr (), s\<lparr>status := d\<rparr>)
      | Inl err \<Rightarrow> (Inr (), s\<lparr>console := console s @ [(''Failed to connect to Hugo:'', err)]\<rparr>))"

text \<open>
  The render's \<open>status && !status.agents_initialized && (banner)\<close>: whether the banner
  is in the output, or the error the expression throws.
\<close>

definition warning_banner :: "app \<Rightarrow> error + bool" where
  "warning_banner s =
     (if \<not> truthy (status s) then Inr False
      else case member (status s) (js ''agents_initialized'') of
             Inl e \<Rightarrow> Inl e
           | Inr v \<Rightarrow> Inr (\<not> truthy v))"

text \<open>The payload the health endpoint is specified to return: an object with a boolean \<open>agents_initialized\<close>.\<close>

definition is_HealthStatus :: "jsval \<Rightarrow> bool" where
  "is_HealthStatus d =
     (case d of
        JObj kvs \<Rightarrow> (case map_of kvs (js ''agents_initialized'') of
                       Some (JBool b) \<Rightarrow> True
                     | _ \<Rightarrow> False)
      | _ \<Rightarrow> False)"


section \<open>Dashboard\<close>

record dashboard_data =
  alerts :: jsval
  inventory :: jsval
  stockoutRisks :: jsval
  suppliers :: jsval
  loading :: bool

definition Dashboard_init :: dashboard_data where
  "Dashboard_init =
     \<lparr>alerts = JArr [], inventory = JNull, stockoutRisks = JArr [], suppliers = JArr [],
      loading = True\<rparr>"

text \<open>The four requests of \<open>fetchDashboardData\<close>, in the order of the array given to \<open>Promise.all\<close>.\<close>

datatype endpoint = Alerts | InventorySummary | StockoutRisks | SupplierPerformance

definition endpoints :: "endpoint list" where
  "endpoints = [Alerts, InventorySummary, StockoutRisks, SupplierPerformance]"

text \<open>
  The component while \<open>fetchDashboardData\<close> runs: its \<open>data\<close> cell, how each request
  has settled so far (\<open>None\<close> while it is pending; a fulfilled request holds the \<open>data\<close>
  of its axios response), and whether the function is still suspended at its \<open>await\<close>.
\<close>

record dashboard = effects +
  data :: dashboard_data
  results :: "endpoint \<Rightarrow> (error + jsval) option"
  awaiting :: bool

text \<open>Calling \<open>fetchDashboardData\<close>: the four requests are issued and the function suspends.\<close>

definition fetchDashboardData :: "dashboard_data \<Rightarrow> dashboard" where
  "fetchDashboardData d =
     \<lparr>console = [], data = d, results = (\<lambda>ep. None), awaiting = True\<rparr>"

text \<open>
  The object literal given to \<open>setData\<close> in the \<open>try\<close> block; each argument is the
  \<open>data\<close> of one response.
\<close>

definition snapshot :: "jsval \<Rightarrow> jsval \<Rightarrow> jsval \<Rightarrow> jsval \<Rightarrow> error + dashboard_data" where
  "snapshot alertsRes invRes risksRes suppRes =
     (case member alertsRes (js ''alerts'') of
        Inl e \<Rightarrow> Inl e
      | Inr a \<Rightarrow>
          (case member risksRes (js ''risks'') of
             Inl e \<Rightarrow> Inl e
           | Inr r \<Rightarrow>
               (case member suppRes (js ''suppliers'') of
                  Inl e \<Rightarrow> Inl e
                | Inr p \<Rightarrow>
                    Inr \<lparr>alerts = a, inventory = invRes, stockoutRisks = r, suppliers = p,
                         loading = False\<rparr>)))"

text \<open>The \<open>catch\<close> block.\<close>

definition fetch_failed :: "error \<Rightarrow> dashboard \<Rightarrow> dashboard" where
  "fetch_failed e s =
     s\<lparr>console := console s @ [(''Error fetching dashboard data:'', e)],
       data := (data s)\<lparr>loading := False\<rparr>\<rparr>"

text \<open>\<open>fetchDashboardData\<close> from its \<open>await\<close> on, given how \<open>Promise.all\<close> settled.\<close>

definition fetchDashboardData_resume ::
    "error + jsval \<times> jsval \<times> jsval \<times> jsval \<Rightarrow> dashboard \<Rightarrow> dashboard" where
  "fetchDashboardData_resume joined s =
     (case joined of
        Inl e \<Rightarrow> fetch_failed e s
      | Inr (alertsRes, invRes, risksRes, suppRes) \<Rightarrow>
          (case snapshot alertsRes invRes risksRes suppRes of
             Inl e \<Rightarrow> fetch_failed e s
           | Inr d \<Rightarrow> s\<lparr>data := d\<rparr>))"

text \<open>\<open>Promise.all\<close> fulfils with the four values once all four requests are fulfilled.\<close>

definition all_fulfilled ::
    "(endpoint \<Rightarrow> (error + jsval) option) \<Rightarrow> (jsval \<times> jsval \<times> jsval \<times> jsval) option" where
  "all_fulfilled res =
     (case (res Alerts, res InventorySummary, res StockoutRisks, res SupplierPerformance) of
        (Some (Inr a), Some (Inr i), Some (Inr r), Some (Inr p)) \<Rightarrow> Some (a, i, r, p)
      | _ \<Rightarrow> None)"

text \<open>
  One request settles. A promise settles once, so a second settlement of the same
  request changes nothing. \<open>Promise.all\<close> rejects at the first rejection and fulfils
  when the last request is fulfilled; after either, the remaining settlements are
  recorded and have no further effect.
\<close>

fun settle :: "dashboard \<Rightarrow> endpoint \<times> (error + jsval) \<Rightarrow> dashboard" where
  "settle s (ep, r) =
     (if results s ep \<noteq> None then s
      else
        let s1 = s\<lparr>results := (results s)(ep \<mapsto> r)\<rparr>
        in if \<not> awaiting s then s1
           else case r of
                  Inl e \<Rightarrow> fetchDashboardData_resume (Inl e) (s1\<lparr>awaiting := False\<rparr>)
                | Inr v \<Rightarrow>
                    (case all_fulfilled (results s1) of
                       None \<Rightarrow> s1
                     | Some vs \<Rightarrow> fetchDashboardData_resume (Inr vs) (s1\<lparr>awaiting := False\<rparr>)))"

text \<open>
  A refresh: \<open>fetchDashboardData\<close> called on a component whose cell holds \<open>d\<close>, followed
  by the settlements of its requests in the order they happen. \<open>refresh_states\<close> lists
  the state before the first settlement and after each one.
\<close>

definition refresh :: "dashboard_data \<Rightarrow> (endpoint \<times> (error + jsval)) list \<Rightarrow> dashboard" where
  "refresh d settlements = foldl settle (fetchDashboardData d) settlements"

fun states_from :: "dashboard \<Rightarrow> (endpoint \<times> (error + jsval)) list \<Rightarrow> dashboard list" where
  "states_from s [] = [s]"
| "states_from s (x # xs) = s # states_from (settle s x) xs"

definition refresh_states ::
    "dashboard_data \<Rightarrow> (endpoint \<times> (error + jsval)) list \<Rightarrow> dashboard list" where
  "refresh_states d settlements = states_from (fetchDashboardData d) settlements"

text \<open>Every one of the four requests settles during the refresh.\<close>

definition all_settle :: "(endpoint \<times> (error + jsval)) list \<Rightarrow> bool" where
  "all_settle settlements = (\<forall>ep \<in> set endpoints. map_of settlements ep \<noteq> None)"

text \<open>
  The state of the join, read off the results: \<open>Promise.all\<close> has rejected once some
  request has failed, and is pending while none has failed and not all are fulfilled.
\<close>

fun is_rejection :: "(error + jsval) option \<Rightarrow> bool" where
  "is_rejection (Some (Inl e)) = True"
| "is_rejection r = False"

definition rejected :: "(endpoint \<Rightarrow> (error + jsval) option) \<Rightarrow> bool" where
  "rejected res = (\<exists>ep \<in> set endpoints. is_rejection (res ep))"

definition join_pending :: "(endpoint \<Rightarrow> (error + jsval) option) \<Rightarrow> bool" where
  "join_pending res = (\<not> rejected res \<and> all_fulfilled res = None)"

text \<open>
  What the \<open>data\<close> cell holds as a function of the results alone, for a refresh that
  started from \<open>d\<close>; \<open>tracks\<close> is the invariant that ties the running component to it.
\<close>

definition shown ::
    "dashboard_data \<Rightarrow> (endpoint \<Rightarrow> (error + jsval) option) \<Rightarrow> dashboard_data" where
  "shown d res =
     (if rejected res then d\<lparr>loading := False\<rparr>
      else case all_fulfilled res of
             None \<Rightarrow> d
           | Some (a, i, r, p) \<Rightarrow>
               (case snapshot a i r p of Inr d' \<Rightarrow> d' | Inl e \<Rightarrow> d\<lparr>loading := False\<rparr>))"

definition tracks :: "dashboard_data \<Rightarrow> dashboard \<Rightarrow> bool" where
  "tracks d s = (data s = shown d (results s) \<and> awaiting s = join_pending (results s))"

text \<open>How often a sequence of flags goes from true to false.\<close>

fun falls :: "bool list \<Rightarrow> nat" where
  "falls (a # b # bs) = (if a \<and> \<not> b then 1 else 0) + falls (b # bs)"
| "falls bs = 0"

subsection \<open>The render\<close>

text \<open>
  The conversions the render leaves to the runtime, taken as parameters: the
  lower-casing of a string, the conversion to a string that a template literal applies
  (it can throw), and the method \<open>toLocaleString\<close> of a value that is neither \<open>null\<close>
  nor \<open>undefined\<close> (it can throw too).
\<close>

record runtime =
  lowercase :: "jsstring \<Rightarrow> jsstring"
  to_string :: "jsval \<Rightarrow> error + jsstring"
  to_locale_string :: "jsval \<Rightarrow> error + jsstring"

text \<open>Sequencing of two steps of which the first can throw.\<close>

definition and_then :: "error + 'a \<Rightarrow> ('a \<Rightarrow> error + 'b) \<Rightarrow> error + 'b" where
  "and_then r f = (case r of Inl e \<Rightarrow> Inl e | Inr x \<Rightarrow> f x)"

text \<open>
  The read \<open>v.length\<close>: the number of elements of an array and of code units of a
  string, an own property of an object, \<open>undefined\<close> on a boolean or a number, and a
  throw on \<open>null\<close> and \<open>undefined\<close>.
\<close>

fun js_length :: "jsval \<Rightarrow> error + jsval" where
  "js_length JUndefined = Inl TypeError"
| "js_length JNull = Inl TypeError"
| "js_length (JArr xs) = Inr (JNum (int (length xs)))"
| "js_length (JStr s) = Inr (JNum (int (length s)))"
| "js_length v = member v (js ''length'')"

text \<open>The read \<open>v?.k\<close>, for the same property names as \<open>member\<close>: \<open>undefined\<close> instead of a throw.\<close>

fun optional_member :: "jsval \<Rightarrow> jsstring \<Rightarrow> jsval" where
  "optional_member JUndefined k = JUndefined"
| "optional_member JNull k = JUndefined"
| "optional_member (JObj kvs) k = (case map_of kvs k of None \<Rightarrow> JUndefined | Some v \<Rightarrow> v)"
| "optional_member v k = JUndefined"

text \<open>\<open>Array.prototype.map\<close> with a callback that can throw: the first throw ends it.\<close>

fun js_map :: "('a \<Rightarrow> nat \<Rightarrow> error + 'b) \<Rightarrow> nat \<Rightarrow> 'a list \<Rightarrow> error + 'b list" where
  "js_map f i [] = Inr []"
| "js_map f i (x # xs) =
     (case f x i of
        Inl e \<Rightarrow> Inl e
      | Inr y \<Rightarrow> (case js_map f (Suc i) xs of Inl e \<Rightarrow> Inl e | Inr ys \<Rightarrow> Inr (y # ys)))"

text \<open>\<open>v.map(f)\<close>: only an array has the method, the call throws on every other value.\<close>

definition array_map :: "(jsval \<Rightarrow> nat \<Rightarrow> error + 'b) \<Rightarrow> jsval \<Rightarrow> error + 'b list" where
  "array_map f v = (case v of JArr xs \<Rightarrow> js_map f 0 xs | _ \<Rightarrow> Inl TypeError)"

text \<open>
  What React accepts as a child: anything but an object, and an array of such. An
  object from a JSON body is never an element, and React throws on it.
\<close>

fun valid_child :: "jsval \<Rightarrow> bool" where
  "valid_child (JObj kvs) = False"
| "valid_child (JArr xs) = list_all valid_child xs"
| "valid_child v = True"

text \<open>
  An item of the alert list: its key, its class (\<open>alert-item\<close> and the severity, through
  a template literal) and the four values it shows.
\<close>

record alert_item =
  key :: nat
  className :: jsstring
  severity :: jsval
  alert_type :: jsval
  alert_message :: jsval
  action_required :: jsval

definition render_alert :: "runtime \<Rightarrow> jsval \<Rightarrow> nat \<Rightarrow> error + alert_item" where
  "render_alert rt alert i =
     and_then (member alert (js ''severity'')) (\<lambda>sev.
     and_then (to_string rt sev) (\<lambda>cls.
     and_then (member alert (js ''alert_type'')) (\<lambda>ty.
     and_then (member alert (js ''message'')) (\<lambda>msg.
     and_then (member alert (js ''action_required'')) (\<lambda>act.
       Inr \<lparr>key = i, className = js ''alert-item '' @ cls, severity = sev,
            alert_type = ty, alert_message = msg, action_required = act\<rparr>)))))"

definition alert_children :: "alert_item \<Rightarrow> jsval list" where
  "alert_children a = [severity a, alert_type a, alert_message a, action_required a]"

text \<open>
  A card of the supplier grid: its key, the three values it shows and the width of the
  progress bar (the on-time rate and a percent sign, through a template literal).
\<close>

record supplier_card =
  key :: nat
  Supplier_Name :: jsval
  width :: jsstring
  On_Time_Rate :: jsval
  Lead_Time_Days :: jsval

definition render_supplier :: "runtime \<Rightarrow> jsval \<Rightarrow> nat \<Rightarrow> error + supplier_card" where
  "render_supplier rt s i =
     and_then (member s (js ''Supplier_Name'')) (\<lambda>name.
     and_then (member s (js ''On_Time_Rate'')) (\<lambda>rate.
     and_then (to_string rt rate) (\<lambda>w.
     and_then (member s (js ''Lead_Time_Days'')) (\<lambda>days.
       Inr \<lparr>key = i, Supplier_Name = name, width = w @ js ''%'', On_Time_Rate = rate,
            Lead_Time_Days = days\<rparr>))))"

definition supplier_children :: "supplier_card \<Rightarrow> jsval list" where
  "supplier_children c = [Supplier_Name c, On_Time_Rate c, Lead_Time_Days c]"

text \<open>
  A row of the stock-out table: its key, its three cells and the class of the status
  pill. \<open>risk.urgency.toLowerCase()\<close> throws unless the urgency is a string; the
  lower-casing itself belongs to the runtime and is a parameter here.
\<close>

record risk_row =
  key :: nat
  description :: jsval
  days_until_stockout :: jsval
  className :: jsstring
  urgency :: jsval

definition toLowerCase :: "(jsstring \<Rightarrow> jsstring) \<Rightarrow> jsval \<Rightarrow> error + jsstring" where
  "toLowerCase lower v = (case v of JStr u \<Rightarrow> Inr (lower u) | _ \<Rightarrow> Inl TypeError)"

definition render_risk :: "(jsstring \<Rightarrow> jsstring) \<Rightarrow> jsval \<Rightarrow> nat \<Rightarrow> error + risk_row" where
  "render_risk lower risk i =
     (case member risk (js ''description'') of
        Inl e \<Rightarrow> Inl e
      | Inr d \<Rightarrow>
          (case member risk (js ''days_until_stockout'') of
             Inl e \<Rightarrow> Inl e
           | Inr n \<Rightarrow>
               (case member risk (js ''urgency'') of
                  Inl e \<Rightarrow> Inl e
                | Inr u \<Rightarrow>
                    (case toLowerCase lower u of
                       Inl e \<Rightarrow> Inl e
                     | Inr l \<Rightarrow>
                         Inr \<lparr>key = i, description = d, days_until_stockout = n,
                              className = js ''status-pill '' @ l, urgency = u\<rparr>))))"

definition risk_children :: "risk_row \<Rightarrow> jsval list" where
  "risk_children r = [description r, days_until_stockout r, urgency r]"

text \<open>
  The value of \<open>data.stockoutRisks.slice(0, 6).map(...)\<close>: the rows of the table body,
  or the error thrown on the way. Only an array has both methods: on any other value
  one of the two calls throws.
\<close>

definition stockout_rows :: "(jsstring \<Rightarrow> jsstring) \<Rightarrow> jsval \<Rightarrow> error + risk_row list" where
  "stockout_rows lower risks =
     (case risks of
        JArr xs \<Rightarrow> js_map (render_risk lower) 0 (js_slice 0 6 xs)
      | _ \<Rightarrow> Inl TypeError)"

text \<open>
  The inventory value of the third card, \<open>data.inventory?.total_stock_value?.toLocaleString()\<close>:
  \<open>undefined\<close> when the inventory or the value is \<open>null\<close> or \<open>undefined\<close>.
\<close>

definition inventory_value_text :: "runtime \<Rightarrow> jsval \<Rightarrow> error + jsval" where
  "inventory_value_text rt summary =
     (case optional_member summary (js ''total_stock_value'') of
        JUndefined \<Rightarrow> Inr JUndefined
      | JNull \<Rightarrow> Inr JUndefined
      | v \<Rightarrow> and_then (to_locale_string rt v) (\<lambda>t. Inr (JStr t)))"

text \<open>
  What the component displays once it is past the loading placeholder: the four
  numbers of the cards, the alert list, the body of the stock-out table and the
  supplier grid.
\<close>

record dashboard_view =
  active_alerts :: jsval
  low_stock_items :: jsval
  inventory_value :: jsval
  active_suppliers :: jsval
  alert_items :: "alert_item list"
  risk_rows :: "risk_row list"
  supplier_cards :: "supplier_card list"

datatype view = LoadingState | DashboardView dashboard_view

text \<open>Every value the view hands to React as a child.\<close>

definition view_children :: "dashboard_view \<Rightarrow> jsval list" where
  "view_children v =
     [active_alerts v, low_stock_items v, inventory_value v, active_suppliers v]
     @ concat (map alert_children (alert_items v))
     @ concat (map risk_children (risk_rows v))
     @ concat (map supplier_children (supplier_cards v))"

text \<open>
  The render of the component: the loading placeholder, or the expressions of the
  returned tree in the order they are written, any of which can throw, and then
  React's check of the children. An error is a render that displays nothing.
\<close>

definition Dashboard_render :: "runtime \<Rightarrow> dashboard_data \<Rightarrow> error + view" where
  "Dashboard_render rt d =
     (if loading d then Inr LoadingState
      else
        and_then (js_length (alerts d)) (\<lambda>n_alerts.
        and_then (inventory_value_text rt (inventory d)) (\<lambda>val.
        and_then (js_length (suppliers d)) (\<lambda>n_suppliers.
        and_then (array_map (render_alert rt) (alerts d)) (\<lambda>items.
        and_then (stockout_rows (lowercase rt) (stockoutRisks d)) (\<lambda>rows.
        and_then (array_map (render_supplier rt) (suppliers d)) (\<lambda>cards.
          let low = optional_member (inventory d) (js ''low_stock_count'');
              v = \<lparr>active_alerts = n_alerts,
                   low_stock_items = (if truthy low then low else JNum 0),
                   inventory_value = val,
                   active_suppliers = n_suppliers,
                   alert_items = items, risk_rows = rows, supplier_cards = cards\<rparr>
          in if list_all valid_child (view_children v) then Inr (DashboardView v)
             else Inl InvalidChild)))))))"

text \<open>
  The payloads as the backend is specified to send them. A risk row is an object with
  a text \<open>description\<close>, a number \<open>days_until_stockout\<close> and a text \<open>urgency\<close>; an
  alert is an object with four texts; a supplier row is an object with a text name and
  two numbers; an inventory summary is an object with the two numbers the cards show.
\<close>

definition is_RiskRow :: "jsval \<Rightarrow> bool" where
  "is_RiskRow risk =
     (case risk of
        JObj kvs \<Rightarrow>
          (case (map_of kvs (js ''description''), map_of kvs (js ''days_until_stockout''),
                 map_of kvs (js ''urgency'')) of
             (Some (JStr d), Some (JNum n), Some (JStr u)) \<Rightarrow> True
           | _ \<Rightarrow> False)
      | _ \<Rightarrow> False)"

definition is_Alert :: "jsval \<Rightarrow> bool" where
  "is_Alert alert =
     (case alert of
        JObj kvs \<Rightarrow>
          (case (map_of kvs (js ''severity''), map_of kvs (js ''alert_type''),
                 map_of kvs (js ''message''), map_of kvs (js ''action_required'')) of
             (Some (JStr s), Some (JStr t), Some (JStr m), Some (JStr a)) \<Rightarrow> True
           | _ \<Rightarrow> False)
      | _ \<Rightarrow> False)"

definition is_SupplierRow :: "jsval \<Rightarrow> bool" where
  "is_SupplierRow s =
     (case s of
        JObj kvs \<Rightarrow>
          (case (map_of kvs (js ''Supplier_Name''), map_of kvs (js ''On_Time_Rate''),
                 map_of kvs (js ''Lead_Time_Days'')) of
             (Some (JStr n), Some (JNum r), Some (JNum l)) \<Rightarrow> True
           | _ \<Rightarrow> False)
      | _ \<Rightarrow> False)"

definition is_InventorySummary :: "jsval \<Rightarrow> bool" where
  "is_InventorySummary summary =
     (case summary of
        JObj kvs \<Rightarrow>
          (case (map_of kvs (js ''low_stock_count''), map_of kvs (js ''total_stock_value'')) of
             (Some (JNum c), Some (JNum t)) \<Rightarrow> True
           | _ \<Rightarrow> False)
      | _ \<Rightarrow> False)"

text \<open>
  The data of a component whose alerts, inventory and suppliers have these shapes; the
  inventory may also still be the \<open>null\<close> of the mount.
\<close>

definition well_formed :: "dashboard_data \<Rightarrow> bool" where
  "well_formed d =
     ((case alerts d of JArr xs \<Rightarrow> list_all is_Alert xs | _ \<Rightarrow> False)
      \<and> (inventory d = JNull \<or> is_InventorySummary (inventory d))
      \<and> (case suppliers d of JArr xs \<Rightarrow> list_all is_SupplierRow xs | _ \<Rightarrow> False))"

text \<open>
  What the language guarantees of the two conversions: they return on a string and on
  a number.
\<close>

definition conforming :: "runtime \<Rightarrow> bool" where
  "conforming rt =
     ((\<forall>s. \<exists>t. to_string rt (JStr s) = Inr t)
      \<and> (\<forall>n. \<exists>t. to_string rt (JNum n) = Inr t)
      \<and> (\<forall>n. \<exists>t. to_locale_string rt (JNum n) = Inr t))"


text \<open>
  A runtime for the examples. It lower-cases the letters A to Z, converts a string to
  itself and an integer to its decimal digits, and formats a number for the locale in
  the same way; the conversions of other values are not modelled and throw.
\<close>

fun decimal :: "nat \<Rightarrow> jsstring" where
  "decimal n =
     (if n < 10 then [of_nat (48 + n)] else decimal (n div 10) @ [of_nat (48 + n mod 10)])"

definition number_string :: "int \<Rightarrow> jsstring" where
  "number_string n = (if n < 0 then 0x2D # decimal (nat (- n)) else decimal (nat n))"

definition example_runtime :: runtime where
  "example_runtime =
     \<lparr>lowercase = map (\<lambda>c. if 0x41 \<le> c \<and> c \<le> 0x5A then c + 0x20 else c),
      to_string = (\<lambda>v. case v of JStr s \<Rightarrow> Inr s
                              | JNum n \<Rightarrow> Inr (number_string n)
                              | _ \<Rightarrow> Inl TypeError),
      to_locale_string = (\<lambda>v. case v of JNum n \<Rightarrow> Inr (number_string n)
                                     | _ \<Rightarrow> Inl TypeError)\<rparr>"


section \<open>ChatInterface\<close>

datatype role = User | Assistant

text \<open>
  A message object. \<open>data\<close> and \<open>error\<close> are properties that only some messages have:
  \<open>None\<close> is an absent property.
\<close>

record message =
  role :: role
  content :: jsval
  timestamp :: nat
  data :: "jsval option"
  error :: "bool option"

definition EXAMPLE_QUESTIONS :: "jsstring list" where
  "EXAMPLE_QUESTIONS =
     [js ''How many S2_V1 scooters can we build right now?'',
      js ''Which materials are running low on stock?'',
      js ''What's our current inventory value?'',
      js ''Show me supplier performance'',
      js ''What are the critical alerts I should know about?'',
      js ''Calculate build capacity for all scooter models'']"

text \<open>The component's state: the three \<open>useState\<close> cells.\<close>

record chat = effects +
  messages :: "message list"
  input :: jsstring
  loading :: bool

definition greeting :: jsstring where
  "greeting = js ''Hi! I'm Hugo, your AI procurement assistant for Voltway. I can help you with inventory analysis, build capacity calculations, supplier performance, and more. What would you like to know?''"

text \<open>The state at mount; \<open>t0\<close> is what \<open>new Date()\<close> returns then.\<close>

definition ChatInterface_init :: "nat \<Rightarrow> chat" where
  "ChatInterface_init t0 =
     \<lparr>console = [],
      messages = [\<lparr>role = Assistant, content = JStr greeting, timestamp = t0,
                    data = None, error = None\<rparr>],
      input = [], loading = False\<rparr>"

text \<open>
  \<open>handleSend\<close> up to its \<open>await\<close>. The result is the state after the three updates
  and the body posted to \<open>/api/chat\<close>, or \<open>None\<close> when the guard returns and nothing is
  posted. \<open>now\<close> is the value of \<open>new Date()\<close>.
\<close>

definition handleSend :: "nat \<Rightarrow> chat \<Rightarrow> chat \<times> jsval option" where
  "handleSend now s =
     (if \<not> truthy (JStr (js_trim (input s))) \<or> loading s then (s, None)
      else
        let userMessage = \<lparr>role = User, content = JStr (input s), timestamp = now,
                           data = None, error = None\<rparr>
        in (s\<lparr>messages := messages s @ [userMessage], input := [], loading := True\<rparr>,
            Some (JObj [(js ''question'', JStr (input s))])))"

text \<open>
  The statements of the \<open>try\<close> block after the \<open>await\<close>: \<open>response\<close> is the settled
  request, a rejection or the \<open>data\<close> of the axios response. Reading
  \<open>response.data.answer\<close> throws when the body is \<open>null\<close>.
\<close>

definition assistantMessage :: "nat \<Rightarrow> error + jsval \<Rightarrow> error + message" where
  "assistantMessage now response =
     (case response of
        Inl e \<Rightarrow> Inl e
      | Inr d \<Rightarrow>
          (case member d (js ''answer'') of
             Inl e \<Rightarrow> Inl e
           | Inr a \<Rightarrow>
               (case member d (js ''data'') of
                  Inl e \<Rightarrow> Inl e
                | Inr x \<Rightarrow>
                    Inr \<lparr>role = Assistant, content = a, timestamp = now,
                         data = Some x, error = None\<rparr>)))"

definition errorMessage :: "nat \<Rightarrow> message" where
  "errorMessage now =
     \<lparr>role = Assistant,
      content = JStr (js ''Sorry, I encountered an error processing your request. Please try again.''),
      timestamp = now, data = None, error = Some True\<rparr>"

text \<open>\<open>handleSend\<close> from the \<open>await\<close> on: \<open>try\<close>, \<open>catch\<close>, \<open>finally\<close>.\<close>

definition handleSend_resume :: "nat \<Rightarrow> error + jsval \<Rightarrow> chat \<Rightarrow> chat" where
  "handleSend_resume now response s =
     (let s' = (case assistantMessage now response of
                  Inr m \<Rightarrow> s\<lparr>messages := messages s @ [m]\<rparr>
                | Inl e \<Rightarrow>
                    s\<lparr>console := console s @ [(''Error sending message:'', e)],
                      messages := messages s @ [errorMessage now]\<rparr>)
      in s'\<lparr>loading := False\<rparr>)"

text \<open>\<open>handleExampleClick\<close> and the textarea's \<open>onChange\<close> both store the text.\<close>

definition handleExampleClick :: "jsstring \<Rightarrow> chat \<Rightarrow> chat" where
  "handleExampleClick question s = s\<lparr>input := question\<rparr>"

text \<open>The examples panel of the render: the buttons shown, or \<open>None\<close> when it is not rendered.\<close>

definition examples_panel :: "chat \<Rightarrow> jsstring list option" where
  "examples_panel s = (if length (messages s) = 1 then Some EXAMPLE_QUESTIONS else None)"

text \<open>
  A session is the component together with the number of posted requests that have not
  settled yet. Its events are the user's edits and sends, and the settling of a request;
  a response can only arrive for a request that is in flight. Every handler runs on the
  state of the latest render: React applies the updates of one event before the next
  event is delivered.
\<close>

record session =
  ui :: chat
  in_flight :: nat

datatype chat_event =
    Change jsstring
  | Send nat
  | Response nat "error + jsval"

definition session_init :: "nat \<Rightarrow> session" where
  "session_init t0 = \<lparr>ui = ChatInterface_init t0, in_flight = 0\<rparr>"

fun chat_step :: "session \<Rightarrow> chat_event \<Rightarrow> session option" where
  "chat_step m (Change v) = Some (m\<lparr>ui := handleExampleClick v (ui m)\<rparr>)"
| "chat_step m (Send now) =
     (case handleSend now (ui m) of
        (s', None) \<Rightarrow> Some (m\<lparr>ui := s'\<rparr>)
      | (s', Some body) \<Rightarrow> Some \<lparr>ui = s', in_flight = Suc (in_flight m)\<rparr>)"
| "chat_step m (Response now r) =
     (if in_flight m = 0 then None
      else Some \<lparr>ui = handleSend_resume now r (ui m), in_flight = in_flight m - 1\<rparr>)"

fun chat_run :: "session \<Rightarrow> chat_event list \<Rightarrow> session option" where
  "chat_run m [] = Some m"
| "chat_run m (e # es) = (case chat_step m e of None \<Rightarrow> None | Some m' \<Rightarrow> chat_run m' es)"

text \<open>The completed send cycles of a run: one for each request that settled.\<close>

fun completed :: "chat_event list \<Rightarrow> nat" where
  "completed [] = 0"
| "completed (Response now r # es) = Suc (completed es)"
| "completed (e # es) = completed es"

text \<open>The spec's notion of a blank question: empty, or white space only.\<close>

definition blank :: "jsstring \<Rightarrow> bool" where
  "blank q = (\<forall>c \<in> set q. is_whitespace c)"


text \<open>
  The guard of \<open>handleSend\<close> as an invariant of sessions: the \<open>loading\<close> flag is set
  exactly while a request is in flight, and at most one request is.
\<close>

definition guarded :: "session \<Rightarrow> bool" where
  "guarded m = (in_flight m = (if loading (ui m) then 1 else 0))"

section \<open>Properties of the JavaScript operations\<close>

text \<open>A string trims to the empty string exactly when it is blank.\<close>

lemma all_dropWhile_iff: "(\<forall>x \<in> set (dropWhile P xs). P x) \<longleftrightarrow> (\<forall>x \<in> set xs. P x)"
  by (induction xs) auto

lemma js_trim_Nil_iff: "js_trim q = [] \<longleftrightarrow> blank q"
  by (simp add: js_trim_def blank_def dropWhile_eq_Nil_conv all_dropWhile_iff)

text \<open>\<open>slice(0, 6)\<close> keeps the first six elements.\<close>

lemma js_slice_0_6: "js_slice 0 6 xs = take 6 xs"
  by (simp add: js_slice_def relative_index_def min_def)

text \<open>
  A \<open>map\<close> that returns has called the callback on every element, in order and with
  its index; it returns whenever the callback does.
\<close>

lemma js_map_Inr:
  "js_map f i xs = Inr ys \<Longrightarrow>
   length ys = length xs \<and> (\<forall>j < length xs. f (xs ! j) (i + j) = Inr (ys ! j))"
proof (induction xs arbitrary: i ys)
  case Nil
  then show ?case by simp
next
  case (Cons x xs)
  then obtain y ys' where y: "f x i = Inr y" and r: "js_map f (Suc i) xs = Inr ys'"
    and ys: "ys = y # ys'"
    by (auto split: sum.splits)
  from Cons.IH[OF r] y ys show ?case
    by (auto simp: nth_Cons split: nat.splits)
qed

lemma js_map_total:
  "(\<forall>x \<in> set xs. \<forall>k. \<exists>y. f x k = Inr y) \<Longrightarrow> \<exists>ys. js_map f i xs = Inr ys"
proof (induction xs arbitrary: i)
  case Nil
  show ?case by simp
next
  case (Cons x xs)
  from Cons.prems have "\<exists>y. f x i = Inr y" by simp
  then obtain y where "f x i = Inr y" ..
  moreover from Cons.prems have "\<exists>ys. js_map f (Suc i) xs = Inr ys"
    by (intro Cons.IH) simp
  then obtain ys where "js_map f (Suc i) xs = Inr ys" ..
  ultimately show ?case by simp
qed

lemma js_map_all:
  assumes "js_map f i xs = Inr ys" and "\<And>x k y. x \<in> set xs \<Longrightarrow> f x k = Inr y \<Longrightarrow> P y"
  shows "\<forall>y \<in> set ys. P y"
proof
  fix y assume "y \<in> set ys"
  then obtain j where j: "j < length ys" "ys ! j = y" by (auto simp: in_set_conv_nth)
  from js_map_Inr[OF assms(1)] j have "j < length xs" "f (xs ! j) (i + j) = Inr y" by auto
  with assms(2)[of "xs ! j" "i + j" y] show "P y" by simp
qed

lemma js_map_total_valid:
  assumes "\<forall>x \<in> set xs. \<forall>k. \<exists>y. f x k = Inr y \<and> list_all valid_child (c y)"
  shows "\<exists>ys. js_map f i xs = Inr ys \<and> list_all valid_child (concat (map c ys))"
proof -
  from assms have "\<forall>x \<in> set xs. \<forall>k. \<exists>y. f x k = Inr y" by blast
  then obtain ys where ys: "js_map f i xs = Inr ys" using js_map_total by blast
  have "\<forall>y \<in> set ys. list_all valid_child (c y)"
  proof (rule js_map_all[OF ys])
    fix x k y assume x: "x \<in> set xs" and y: "f x k = Inr y"
    from assms x obtain y' where "f x k = Inr y'" "list_all valid_child (c y')" by blast
    with y show "list_all valid_child (c y)" by simp
  qed
  then have "list_all valid_child (concat (map c ys))"
    by (auto simp: list_all_iff)
  with ys show ?thesis by blast
qed

text \<open>Sequencing returns exactly when both steps do.\<close>

lemma and_then_Inr_iff: "and_then r f = Inr y \<longleftrightarrow> (\<exists>x. r = Inr x \<and> f x = Inr y)"
  by (cases r) (simp_all add: and_then_def)

lemma and_then_Inr: "and_then (Inr x) f = f x"
  by (simp add: and_then_def)

section \<open>Properties of App\<close>

lemma is_HealthStatus_cases:
  "is_HealthStatus d \<longleftrightarrow>
     (\<exists>kvs b. d = JObj kvs \<and> map_of kvs (js ''agents_initialized'') = Some (JBool b))"
proof (cases d)
  case (JObj kvs)
  show ?thesis
  proof (cases "map_of kvs (js ''agents_initialized'')")
    case None
    with JObj show ?thesis by (simp add: is_HealthStatus_def)
  next
    case (Some v)
    with JObj show ?thesis by (cases v) (simp_all add: is_HealthStatus_def)
  qed
qed (simp_all add: is_HealthStatus_def)

lemma banner_on_HealthStatus:
  "is_HealthStatus d \<Longrightarrow>
   warning_banner (s\<lparr>status := d\<rparr>) = Inr (member d (js ''agents_initialized'') = Inr (JBool False))"
  by (auto simp: is_HealthStatus_cases warning_banner_def)

lemma banner_after_body:
  "warning_banner (s\<lparr>status := d\<rparr>)
     = Inr (truthy d \<and> (\<exists>v. member d (js ''agents_initialized'') = Inr v \<and> \<not> truthy v))"
  by (cases d) (auto simp: warning_banner_def split: option.splits)

text \<open>
  Claim C7 says that the banner is displayed only when the health fetch succeeded and
  \<open>agents_initialized\<close> of the retrieved status is \<open>false\<close>, and never when the fetch
  failed. The effect does not look at the HTTP status of the response: when the backend
  answers with status 500 and the JSON body \<open>{"detail": "Internal Server Error"}\<close>,
  that body becomes the status, and the banner is displayed although the body has no
  \<open>agents_initialized\<close> equal to \<open>false\<close>.
\<close>

theorem banner_counterexample:
  "warning_banner (snd (checkBackendStatus
       (Inr \<lparr>http_status = 500,
             json = Inr (JObj [(js ''detail'', JStr (js ''Internal Server Error''))])\<rparr>)
       App_init)) = Inr True
   \<and> member (JObj [(js ''detail'', JStr (js ''Internal Server Error''))])
         (js ''agents_initialized'') \<noteq> Inr (JBool False)"
  by (simp add: checkBackendStatus_def warning_banner_def App_init_def js_def)

text \<open>
  Claim C7, amended. Starting from the state in which \<open>status\<close> is still \<open>null\<close>, the
  render after the effect shows the warning banner if and only if the health request
  produced a parsed body (\<open>fetch\<close> fulfilled, with whatever HTTP status, and the body
  parsed as JSON) that is truthy and whose \<open>agents_initialized\<close> is falsy. For a
  retrieved health status, an object with a boolean \<open>agents_initialized\<close>, that is
  exactly when \<open>agents_initialized\<close> is \<open>false\<close>. When \<open>fetch\<close> rejects or the
  body does not parse there is no banner. The render never throws and the promise of
  the effect is always fulfilled, so no error leaves the component.
\<close>

theorem banner_iff_body_not_initialized:
  assumes "status s = JNull"
  shows "warning_banner (snd (checkBackendStatus fetched s))
           = Inr (\<exists>res d. fetched = Inr res \<and> json res = Inr d \<and> truthy d
                        \<and> (\<exists>v. member d (js ''agents_initialized'') = Inr v \<and> \<not> truthy v))
       \<and> (\<forall>res d. fetched = Inr res \<and> json res = Inr d \<and> is_HealthStatus d \<longrightarrow>
              warning_banner (snd (checkBackendStatus fetched s))
                = Inr (member d (js ''agents_initialized'') = Inr (JBool False)))
       \<and> ((\<exists>e. fetched = Inl e) \<or> (\<exists>res e. fetched = Inr res \<and> json res = Inl e) \<longrightarrow>
              warning_banner (snd (checkBackendStatus fetched s)) = Inr False)
       \<and> fst (checkBackendStatus fetched s) = Inr ()"
proof -
  have 1: "warning_banner (snd (checkBackendStatus fetched s))
           = Inr (\<exists>res d. fetched = Inr res \<and> json res = Inr d \<and> truthy d
                        \<and> (\<exists>v. member d (js ''agents_initialized'') = Inr v \<and> \<not> truthy v))"
  proof (cases fetched)
    case (Inl e)
    with assms show ?thesis by (simp add: checkBackendStatus_def warning_banner_def)
  next
    case (Inr res)
    show ?thesis
    proof (cases "json res")
      case (Inl e)
      with Inr assms show ?thesis by (simp add: checkBackendStatus_def warning_banner_def)
    next
      case d: (Inr d)
      with Inr banner_after_body[where s=s and d=d] show ?thesis by (simp add: checkBackendStatus_def)
    qed
  qed
  have 2: "warning_banner (snd (checkBackendStatus fetched s))
                = Inr (member d (js ''agents_initialized'') = Inr (JBool False))"
    if "fetched = Inr res" "json res = Inr d" "is_HealthStatus d" for res d
    using that banner_on_HealthStatus[of d s] by (simp add: checkBackendStatus_def)
  have 3: "(\<exists>e. fetched = Inl e) \<or> (\<exists>res e. fetched = Inr res \<and> json res = Inl e) \<longrightarrow>
              warning_banner (snd (checkBackendStatus fetched s)) = Inr False"
    unfolding 1 by auto
  have 4: "fst (checkBackendStatus fetched s) = Inr ()"
    by (simp add: checkBackendStatus_def split: sum.splits)
  from 1 2 3 4 show ?thesis by blast
qed

theorem banner_iff_body_not_initialized_witness:
  "status App_init = JNull
   \<and> is_HealthStatus (JObj [(js ''status'', JStr (js ''ok'')), (js ''agents_initialized'', JBool False)])
   \<and> warning_banner (snd (checkBackendStatus
        (Inr \<lparr>http_status = 200,
              json = Inr (JObj [(js ''status'', JStr (js ''ok'')),
                                (js ''agents_initialized'', JBool False)])\<rparr>) App_init))
       = Inr True
   \<and> warning_banner (snd (checkBackendStatus (Inl NetworkError) App_init)) = Inr False
   \<and> warning_banner (snd (checkBackendStatus
        (Inr \<lparr>http_status = 502, json = Inl SyntaxError\<rparr>) App_init)) = Inr False"
proof -
  let ?h = "JObj [(js ''status'', JStr (js ''ok'')), (js ''agents_initialized'', JBool False)]"
  have s: "status App_init = JNull" by (simp add: App_init_def)
  have h: "is_HealthStatus ?h" by (simp add: is_HealthStatus_def js_def)
  have m: "member ?h (js ''agents_initialized'') = Inr (JBool False)" by (simp add: js_def)
  from banner_iff_body_not_initialized[OF s, of "Inr \<lparr>http_status = 200, json = Inr ?h\<rparr>"] h m
  have 1: "warning_banner (snd (checkBackendStatus
             (Inr \<lparr>http_status = 200, json = Inr ?h\<rparr>) App_init)) = Inr True"
    by simp
  from banner_iff_body_not_initialized[OF s, of "Inl NetworkError"]
  have 2: "warning_banner (snd (checkBackendStatus (Inl NetworkError) App_init)) = Inr False"
    by simp
  from banner_iff_body_not_initialized[OF s, of "Inr \<lparr>http_status = 502, json = Inl SyntaxError\<rparr>"]
  have 3: "warning_banner (snd (checkBackendStatus
             (Inr \<lparr>http_status = 502, json = Inl SyntaxError\<rparr>) App_init)) = Inr False"
    by simp
  from s h 1 2 3 show ?thesis by blast
qed

section \<open>Properties of Dashboard\<close>

subsection \<open>The state as a function of the results\<close>

lemma is_rejection_iff: "is_rejection x \<longleftrightarrow> (\<exists>e. x = Some (Inl e))"
  by (cases x rule: is_rejection.cases) simp_all

lemma endpoint_listed: "ep \<in> set endpoints"
  by (cases ep) (simp_all add: endpoints_def)

lemma rejected_iff: "rejected res \<longleftrightarrow> (\<exists>ep e. res ep = Some (Inl e))"
  by (auto simp: rejected_def endpoint_listed is_rejection_iff)

lemma all_fulfilled_Some_iff:
  "all_fulfilled res = Some (a, i, r, p) \<longleftrightarrow>
     res Alerts = Some (Inr a) \<and> res InventorySummary = Some (Inr i) \<and>
     res StockoutRisks = Some (Inr r) \<and> res SupplierPerformance = Some (Inr p)"
  by (auto simp: all_fulfilled_def split: option.splits sum.splits)

lemma all_fulfilled_None_iff:
  "all_fulfilled res = None \<longleftrightarrow> (\<exists>ep. res ep = None \<or> (\<exists>e. res ep = Some (Inl e)))"
proof
  assume "all_fulfilled res = None"
  then show "\<exists>ep. res ep = None \<or> (\<exists>e. res ep = Some (Inl e))"
    by (auto simp: all_fulfilled_def split: option.splits sum.splits)
next
  assume "\<exists>ep. res ep = None \<or> (\<exists>e. res ep = Some (Inl e))"
  then obtain ep where "res ep = None \<or> (\<exists>e. res ep = Some (Inl e))" by blast
  then show "all_fulfilled res = None"
    by (cases ep) (auto simp: all_fulfilled_def split: option.splits sum.splits)
qed

lemma tracks_start: "tracks d (fetchDashboardData d)"
  by (simp add: tracks_def fetchDashboardData_def shown_def join_pending_def rejected_def all_fulfilled_def)

lemma settle_results:
  "results (settle s (ep, r)) = (if results s ep \<noteq> None then results s else (results s)(ep \<mapsto> r))"
  by (auto simp: fetchDashboardData_resume_def fetch_failed_def Let_def
           split: sum.splits option.splits prod.splits)

declare settle.simps [simp del]

lemma tracks_settle:
  assumes "tracks d s"
  shows "tracks d (settle s x)"
proof -
  obtain ep r where x: "x = (ep, r)" by (cases x)
  show ?thesis
  proof (cases "results s ep")
    case (Some y)
    with assms x show ?thesis by (simp add: settle.simps)
  next
    case None
    let ?res = "(results s)(ep \<mapsto> r)"
    from None have unful: "all_fulfilled (results s) = None"
      by (auto simp: all_fulfilled_None_iff)
    show ?thesis
    proof (cases "awaiting s")
      case False
      with assms unful have rej: "rejected (results s)"
        by (simp add: tracks_def join_pending_def)
      then obtain ep' e where "results s ep' = Some (Inl e)"
        by (auto simp: rejected_iff)
      with None have "?res ep' = Some (Inl e)" by auto
      then have rej': "rejected ?res" unfolding rejected_iff by blast
      from assms rej rej' False None x show ?thesis
        by (simp add: settle.simps tracks_def shown_def join_pending_def)
    next
      case True
      with assms have norej: "\<not> rejected (results s)" and d: "dashboard.data s = d"
        using unful by (simp_all add: tracks_def join_pending_def shown_def)
      show ?thesis
      proof (cases r)
        case (Inl e)
        then have "rejected ?res" by (auto simp: rejected_iff)
        with True None x Inl d show ?thesis
          by (simp add: settle.simps tracks_def shown_def join_pending_def fetchDashboardData_resume_def fetch_failed_def)
      next
        case (Inr v)
        with norej have norej': "\<not> rejected ?res"
          by (auto simp: rejected_iff split: if_splits)
        with True None x Inr d show ?thesis
          by (auto simp: settle.simps Let_def tracks_def shown_def join_pending_def
                         fetchDashboardData_resume_def fetch_failed_def
                   split: option.splits sum.splits prod.splits)
      qed
    qed
  qed
qed

lemma tracks_foldl: "tracks d s \<Longrightarrow> tracks d (foldl settle s xs)"
  by (induction xs arbitrary: s) (simp_all add: tracks_settle)

lemma results_foldl: "results (foldl settle s xs) = map_of xs ++ results s"
proof (induction xs arbitrary: s)
  case Nil
  show ?case by simp
next
  case (Cons x xs)
  obtain ep r where x: "x = (ep, r)" by (cases x)
  have "results (foldl settle s ((ep, r) # xs)) = map_of xs ++ results (settle s (ep, r))"
    using Cons.IH[of "settle s (ep, r)"] by simp
  also have "\<dots> = map_of ((ep, r) # xs) ++ results s"
    by (rule ext) (auto simp: settle_results map_add_def split: option.splits)
  finally show ?case unfolding x .
qed

lemma results_refresh: "results (refresh d xs) = map_of xs"
  by (simp add: refresh_def results_foldl fetchDashboardData_def)

lemma data_refresh: "dashboard.data (refresh d xs) = shown d (map_of xs)"
  using tracks_foldl[OF tracks_start, of d xs] results_refresh[of d xs]
  by (simp add: tracks_def refresh_def)

lemma awaiting_refresh: "awaiting (refresh d xs) = join_pending (map_of xs)"
  using tracks_foldl[OF tracks_start, of d xs] results_refresh[of d xs]
  by (simp add: tracks_def refresh_def)

lemma all_settle_not_pending:
  assumes "all_settle xs"
  shows "\<not> join_pending (map_of xs)"
proof
  assume p: "join_pending (map_of xs)"
  then obtain ep where "map_of xs ep = None \<or> (\<exists>e. map_of xs ep = Some (Inl e))"
    by (auto simp: join_pending_def all_fulfilled_None_iff)
  moreover from assms have "map_of xs ep \<noteq> None"
    by (simp add: all_settle_def endpoint_listed)
  ultimately have "rejected (map_of xs)" unfolding rejected_iff by blast
  with p show False by (simp add: join_pending_def)
qed

lemma snapshot_loading: "snapshot a i r p = Inr d \<Longrightarrow> \<not> dashboard_data.loading d"
  by (auto simp: snapshot_def split: sum.splits)

lemma shown_loading:
  "dashboard_data.loading (shown d res) = (dashboard_data.loading d \<and> join_pending res)"
  by (auto simp: shown_def join_pending_def snapshot_loading split: option.splits sum.splits)

lemma tracks_loading:
  "tracks d s \<Longrightarrow> dashboard_data.loading d \<Longrightarrow> dashboard_data.loading (dashboard.data s) = awaiting s"
  by (simp add: tracks_def shown_loading)

lemma tracks_states: "tracks d s \<Longrightarrow> t \<in> set (states_from s xs) \<Longrightarrow> tracks d t"
proof (induction xs arbitrary: s)
  case Nil
  then show ?case by simp
next
  case (Cons x xs)
  from Cons.prems(2) have "t = s \<or> t \<in> set (states_from (settle s x) xs)" by simp
  then show ?case
    using Cons.prems(1) Cons.IH[OF tracks_settle[OF Cons.prems(1)]] by blast
qed

lemma settle_awaiting: "\<not> awaiting s \<Longrightarrow> \<not> awaiting (settle s x)"
  by (cases x) (simp add: settle.simps Let_def)

subsection \<open>Counting the falls of the loading flag\<close>

lemma states_from_Cons: "states_from s xs = s # tl (states_from s xs)"
  by (cases xs) simp_all

lemma falls_Cons_Cons:
  "falls (b # map f (states_from t xs)) = (if b \<and> \<not> f t then 1 else 0) + falls (map f (states_from t xs))"
  by (subst (1 2) states_from_Cons) simp

lemma falls_idle: "\<not> awaiting s \<Longrightarrow> falls (map awaiting (states_from s xs)) = 0"
proof (induction xs arbitrary: s)
  case Nil
  show ?case by simp
next
  case (Cons x xs)
  from Cons.prems have "\<not> awaiting (settle s x)" by (rule settle_awaiting)
  with Cons show ?case by (simp add: falls_Cons_Cons)
qed

lemma falls_awaiting:
  "awaiting s \<Longrightarrow>
   falls (map awaiting (states_from s xs)) = (if awaiting (foldl settle s xs) then 0 else 1)"
proof (induction xs arbitrary: s)
  case Nil
  then show ?case by simp
next
  case (Cons x xs)
  show ?case
  proof (cases "awaiting (settle s x)")
    case True
    with Cons show ?thesis by (simp add: falls_Cons_Cons)
  next
    case False
    have "\<not> awaiting (foldl settle (settle s x) xs)"
      using False by (induction xs arbitrary: s x rule: rev_induct) (simp_all add: settle_awaiting)
    with False Cons.prems show ?thesis by (simp add: falls_Cons_Cons falls_idle)
  qed
qed

lemmas refresh_eval = refresh_def fetchDashboardData_def settle.simps all_fulfilled_def
  fetchDashboardData_resume_def fetch_failed_def snapshot_def Dashboard_init_def Let_def
  all_settle_def rejected_def endpoints_def

subsection \<open>The refresh\<close>






text \<open>
  Claim C6. Take a refresh that starts with the loading flag set, as every mount of
  the component does, and in which each of the four requests settles, in any order and
  with any mix of successes and failures. Over the states the component goes through,
  the loading flag goes from true to false exactly once, and it ends false. The flag is
  true only before the fetch resolves, the fetch being the call of
  \<open>fetchDashboardData\<close> and what it awaits: in every state of the run the flag is set
  exactly while the function is still suspended at its \<open>await\<close>, which is exactly
  while no request has failed and not all four are fulfilled.
\<close>

theorem loading_falls_once:
  assumes "dashboard_data.loading d" and "all_settle xs"
  shows "falls (map (\<lambda>s. dashboard_data.loading (dashboard.data s)) (refresh_states d xs)) = 1
       \<and> (\<forall>s \<in> set (refresh_states d xs).
            dashboard_data.loading (dashboard.data s) = awaiting s
          \<and> awaiting s = join_pending (results s))
       \<and> \<not> dashboard_data.loading (dashboard.data (refresh d xs))"
proof -
  let ?s0 = "fetchDashboardData d"
  have tr: "tracks d s" if "s \<in> set (refresh_states d xs)" for s
    using that tracks_states[OF tracks_start] by (simp add: refresh_states_def)
  have eq: "dashboard_data.loading (dashboard.data s) = awaiting s"
    if "s \<in> set (refresh_states d xs)" for s
    using tr[OF that] assms(1) by (rule tracks_loading)
  have m: "map (\<lambda>s. dashboard_data.loading (dashboard.data s)) (refresh_states d xs)
        = map awaiting (refresh_states d xs)"
    by (rule map_cong[OF refl]) (simp add: eq)
  have "awaiting ?s0" by (simp add: fetchDashboardData_def)
  then have f: "falls (map awaiting (refresh_states d xs)) = (if awaiting (refresh d xs) then 0 else 1)"
    unfolding refresh_states_def refresh_def by (rule falls_awaiting)
  have na: "\<not> awaiting (refresh d xs)"
    using all_settle_not_pending[OF assms(2)] by (simp add: awaiting_refresh)
  have 1: "falls (map (\<lambda>s. dashboard_data.loading (dashboard.data s)) (refresh_states d xs)) = 1"
    unfolding m using f na by simp
  have 2: "\<forall>s \<in> set (refresh_states d xs).
            dashboard_data.loading (dashboard.data s) = awaiting s
          \<and> awaiting s = join_pending (results s)"
    using eq tr by (simp add: tracks_def)
  have 3: "\<not> dashboard_data.loading (dashboard.data (refresh d xs))"
    using all_settle_not_pending[OF assms(2)] by (simp add: data_refresh shown_loading)
  from 1 2 3 show ?thesis by blast
qed

theorem loading_falls_once_witness:
  "dashboard_data.loading Dashboard_init
   \<and> all_settle [(InventorySummary, Inr (JObj [(js ''low_stock_count'', JNum 3)])),
                 (SupplierPerformance, Inl NetworkError),
                 (Alerts, Inr (JObj [(js ''alerts'', JArr [])])),
                 (StockoutRisks, Inl (HttpStatus 503))]
   \<and> map (\<lambda>s. dashboard_data.loading (dashboard.data s))
        (refresh_states Dashboard_init
           [(InventorySummary, Inr (JObj [(js ''low_stock_count'', JNum 3)])),
            (SupplierPerformance, Inl NetworkError),
            (Alerts, Inr (JObj [(js ''alerts'', JArr [])])),
            (StockoutRisks, Inl (HttpStatus 503))])
       = [True, True, False, False, False]"
  using loading_falls_once[of Dashboard_init
          "[(InventorySummary, Inr (JObj [(js ''low_stock_count'', JNum 3)])),
            (SupplierPerformance, Inl NetworkError),
            (Alerts, Inr (JObj [(js ''alerts'', JArr [])])),
            (StockoutRisks, Inl (HttpStatus 503))]"]
  by (simp add: refresh_eval refresh_states_def)

subsection \<open>The render and its stock-out table\<close>

lemma is_RiskRow_cases:
  "is_RiskRow risk \<longleftrightarrow>
     (\<exists>kvs d n u. risk = JObj kvs
        \<and> map_of kvs (js ''description'') = Some (JStr d)
        \<and> map_of kvs (js ''days_until_stockout'') = Some (JNum n)
        \<and> map_of kvs (js ''urgency'') = Some (JStr u))"
  by (auto simp: is_RiskRow_def split: jsval.splits option.splits)

lemma is_Alert_cases:
  "is_Alert alert \<longleftrightarrow>
     (\<exists>kvs s t m a. alert = JObj kvs
        \<and> map_of kvs (js ''severity'') = Some (JStr s)
        \<and> map_of kvs (js ''alert_type'') = Some (JStr t)
        \<and> map_of kvs (js ''message'') = Some (JStr m)
        \<and> map_of kvs (js ''action_required'') = Some (JStr a))"
  by (auto simp: is_Alert_def split: jsval.splits option.splits)

lemma is_SupplierRow_cases:
  "is_SupplierRow s \<longleftrightarrow>
     (\<exists>kvs n r l. s = JObj kvs
        \<and> map_of kvs (js ''Supplier_Name'') = Some (JStr n)
        \<and> map_of kvs (js ''On_Time_Rate'') = Some (JNum r)
        \<and> map_of kvs (js ''Lead_Time_Days'') = Some (JNum l))"
  by (auto simp: is_SupplierRow_def split: jsval.splits option.splits)

lemma is_InventorySummary_cases:
  "is_InventorySummary summary \<longleftrightarrow>
     (\<exists>kvs c t. summary = JObj kvs
        \<and> map_of kvs (js ''low_stock_count'') = Some (JNum c)
        \<and> map_of kvs (js ''total_stock_value'') = Some (JNum t))"
  by (auto simp: is_InventorySummary_def split: jsval.splits option.splits)

lemma render_risk_Inr:
  assumes "render_risk lower risk i = Inr row"
  shows "risk_row.key row = i
       \<and> member risk (js ''description'') = Inr (description row)
       \<and> member risk (js ''days_until_stockout'') = Inr (days_until_stockout row)
       \<and> member risk (js ''urgency'') = Inr (urgency row)
       \<and> (\<exists>u. urgency row = JStr u \<and> risk_row.className row = js ''status-pill '' @ lower u)"
  using assms
  by (auto simp: render_risk_def toLowerCase_def split: sum.splits jsval.splits)

lemma render_risk_total:
  "is_RiskRow risk \<Longrightarrow>
   \<exists>row. render_risk lower risk i = Inr row \<and> list_all valid_child (risk_children row)"
  by (auto simp: is_RiskRow_cases render_risk_def toLowerCase_def risk_children_def)

lemma render_alert_total:
  assumes "is_Alert alert" and "conforming rt"
  shows "\<exists>item. render_alert rt alert i = Inr item \<and> list_all valid_child (alert_children item)"
proof -
  from assms(1) obtain kvs s t m a where alert: "alert = JObj kvs"
      "map_of kvs (js ''severity'') = Some (JStr s)"
      "map_of kvs (js ''alert_type'') = Some (JStr t)"
      "map_of kvs (js ''message'') = Some (JStr m)"
      "map_of kvs (js ''action_required'') = Some (JStr a)"
    unfolding is_Alert_cases by blast
  from assms(2) obtain cls where "to_string rt (JStr s) = Inr cls"
    unfolding conforming_def by blast
  with alert show ?thesis
    by (simp add: render_alert_def and_then_Inr alert_children_def)
qed

lemma render_supplier_total:
  assumes "is_SupplierRow s" and "conforming rt"
  shows "\<exists>card. render_supplier rt s i = Inr card \<and> list_all valid_child (supplier_children card)"
proof -
  from assms(1) obtain kvs n r l where s: "s = JObj kvs"
      "map_of kvs (js ''Supplier_Name'') = Some (JStr n)"
      "map_of kvs (js ''On_Time_Rate'') = Some (JNum r)"
      "map_of kvs (js ''Lead_Time_Days'') = Some (JNum l)"
    unfolding is_SupplierRow_cases by blast
  from assms(2) obtain w where "to_string rt (JNum r) = Inr w"
    unfolding conforming_def by blast
  with s show ?thesis
    by (simp add: render_supplier_def and_then_Inr supplier_children_def)
qed

lemma inventory_value_text_total:
  assumes "summary = JNull \<or> is_InventorySummary summary" and "conforming rt"
  shows "\<exists>val. inventory_value_text rt summary = Inr val \<and> valid_child val"
  using assms(1)
proof
  assume "summary = JNull"
  then show ?thesis by (simp add: inventory_value_text_def)
next
  assume "is_InventorySummary summary"
  then obtain kvs n v where k: "summary = JObj kvs"
      "map_of kvs (js ''total_stock_value'') = Some (JNum v)"
    unfolding is_InventorySummary_cases by blast
  from assms(2) obtain t where "to_locale_string rt (JNum v) = Inr t"
    unfolding conforming_def by blast
  with k show ?thesis by (simp add: inventory_value_text_def and_then_Inr)
qed

lemma stockout_rows_take: "stockout_rows lower (JArr (take 6 xs)) = stockout_rows lower (JArr xs)"
  by (simp add: stockout_rows_def js_slice_0_6)

lemma stockout_rows_Inr:
  assumes "stockout_rows lower (JArr xs) = Inr rows"
  shows "length rows = min 6 (length xs)
       \<and> (\<forall>i < length rows. render_risk lower (xs ! i) i = Inr (rows ! i))"
proof -
  from assms have "js_map (render_risk lower) 0 (take 6 xs) = Inr rows"
    by (simp add: stockout_rows_def js_slice_0_6)
  from js_map_Inr[OF this] show ?thesis by (auto simp: min_def)
qed

lemma Dashboard_render_rows:
  assumes "Dashboard_render rt d = Inr (DashboardView v)"
  shows "stockout_rows (lowercase rt) (stockoutRisks d) = Inr (risk_rows v)"
  using assms
  by (auto simp: Dashboard_render_def and_then_Inr_iff Let_def split: if_splits)

lemma Dashboard_render_take:
  "stockoutRisks d = JArr xs \<Longrightarrow>
   Dashboard_render rt (d\<lparr>stockoutRisks := JArr (take 6 xs)\<rparr>) = Dashboard_render rt d"
  by (simp add: Dashboard_render_def stockout_rows_take)

lemma Dashboard_render_total:
  assumes "\<not> dashboard_data.loading d" and "well_formed d" and "conforming rt"
    and "stockoutRisks d = JArr xs" and "\<forall>x \<in> set (take 6 xs). is_RiskRow x"
  shows "\<exists>v. Dashboard_render rt d = Inr (DashboardView v)"
proof -
  from assms(2) obtain as ss where as: "alerts d = JArr as" "list_all is_Alert as"
    and ss: "suppliers d = JArr ss" "list_all is_SupplierRow ss"
    and inv: "inventory d = JNull \<or> is_InventorySummary (inventory d)"
    by (auto simp: well_formed_def split: jsval.splits)
  obtain items where items: "array_map (render_alert rt) (alerts d) = Inr items"
      "list_all valid_child (concat (map alert_children items))"
    using js_map_total_valid[of as "render_alert rt" alert_children 0]
      render_alert_total[OF _ assms(3)] as
    by (auto simp: array_map_def list_all_iff)
  obtain cards where cards: "array_map (render_supplier rt) (suppliers d) = Inr cards"
      "list_all valid_child (concat (map supplier_children cards))"
    using js_map_total_valid[of ss "render_supplier rt" supplier_children 0]
      render_supplier_total[OF _ assms(3)] ss
    by (auto simp: array_map_def list_all_iff)
  obtain rows where rows: "stockout_rows (lowercase rt) (stockoutRisks d) = Inr rows"
      "list_all valid_child (concat (map risk_children rows))"
    using js_map_total_valid[of "take 6 xs" "render_risk (lowercase rt)" risk_children 0]
      render_risk_total assms(4,5)
    by (auto simp: stockout_rows_def js_slice_0_6)
  obtain val where val: "inventory_value_text rt (inventory d) = Inr val" "valid_child val"
    using inventory_value_text_total[OF inv assms(3)] by blast
  have low: "valid_child (if truthy (optional_member (inventory d) (js ''low_stock_count''))
                          then optional_member (inventory d) (js ''low_stock_count'') else JNum 0)"
    using inv by (auto simp: is_InventorySummary_cases)
  from assms(1) as(1) ss(1) items cards rows val low show ?thesis
    by (simp add: Dashboard_render_def and_then_Inr Let_def view_children_def)
qed

declare decimal.simps [simp del]

lemma conforming_example: "conforming example_runtime"
  by (simp add: conforming_def example_runtime_def)

text \<open>
  Claim C10. Let \<open>stockoutRisks\<close> be the array \<open>xs\<close>. The render is the same as for the
  first six elements of \<open>xs\<close> alone, so no element beyond the sixth is ever displayed.
  Whenever the render displays the dashboard, the table body has \<open>min 6 (length xs)\<close>
  rows, at most six, and its \<open>i\<close>-th row has key \<open>i\<close> and shows the description, the
  days and the urgency of the \<open>i\<close>-th element of \<open>xs\<close>, with the lower-cased urgency
  in the class of its pill: the first rows of \<open>xs\<close>, in their original order. And the
  render does display the dashboard when the component is past its loading
  placeholder, its alerts, inventory and suppliers have the shapes the backend is
  specified to send, and the first six elements of \<open>xs\<close> are risk rows.
\<close>

theorem stockout_table_first_six:
  assumes "stockoutRisks d = JArr xs"
  shows "Dashboard_render rt (d\<lparr>stockoutRisks := JArr (take 6 xs)\<rparr>) = Dashboard_render rt d
       \<and> (\<not> dashboard_data.loading d \<and> well_formed d \<and> conforming rt
            \<and> (\<forall>x \<in> set (take 6 xs). is_RiskRow x) \<longrightarrow>
            (\<exists>v. Dashboard_render rt d = Inr (DashboardView v)))
       \<and> (\<forall>v. Dashboard_render rt d = Inr (DashboardView v) \<longrightarrow>
            length (risk_rows v) = min 6 (length xs)
          \<and> (\<forall>i < length (risk_rows v).
                risk_row.key (risk_rows v ! i) = i
              \<and> member (xs ! i) (js ''description'') = Inr (description (risk_rows v ! i))
              \<and> member (xs ! i) (js ''days_until_stockout'')
                  = Inr (days_until_stockout (risk_rows v ! i))
              \<and> member (xs ! i) (js ''urgency'') = Inr (urgency (risk_rows v ! i))
              \<and> (\<exists>u. urgency (risk_rows v ! i) = JStr u
                    \<and> risk_row.className (risk_rows v ! i)
                        = js ''status-pill '' @ lowercase rt u)))"
proof -
  have 1: "Dashboard_render rt (d\<lparr>stockoutRisks := JArr (take 6 xs)\<rparr>) = Dashboard_render rt d"
    using assms by (rule Dashboard_render_take)
  have 2: "\<not> dashboard_data.loading d \<and> well_formed d \<and> conforming rt
            \<and> (\<forall>x \<in> set (take 6 xs). is_RiskRow x) \<longrightarrow>
            (\<exists>v. Dashboard_render rt d = Inr (DashboardView v))"
    using Dashboard_render_total[OF _ _ _ assms] by blast
  have 3: "length (risk_rows v) = min 6 (length xs)
          \<and> (\<forall>i < length (risk_rows v).
                risk_row.key (risk_rows v ! i) = i
              \<and> member (xs ! i) (js ''description'') = Inr (description (risk_rows v ! i))
              \<and> member (xs ! i) (js ''days_until_stockout'')
                  = Inr (days_until_stockout (risk_rows v ! i))
              \<and> member (xs ! i) (js ''urgency'') = Inr (urgency (risk_rows v ! i))
              \<and> (\<exists>u. urgency (risk_rows v ! i) = JStr u
                    \<and> risk_row.className (risk_rows v ! i)
                        = js ''status-pill '' @ lowercase rt u))"
    if "Dashboard_render rt d = Inr (DashboardView v)" for v
  proof -
    from Dashboard_render_rows[OF that] assms
    have "stockout_rows (lowercase rt) (JArr xs) = Inr (risk_rows v)" by simp
    from stockout_rows_Inr[OF this] show ?thesis
      by (auto dest: render_risk_Inr)
  qed
  from 1 2 3 show ?thesis by blast
qed

theorem stockout_table_first_six_witness:
  "\<exists>v. Dashboard_render example_runtime
        \<lparr>alerts = JArr [JObj [(js ''severity'', JStr (js ''high'')),
                                (js ''alert_type'', JStr (js ''low_stock'')),
                                (js ''message'', JStr (js ''Brake pads below reorder point'')),
                                (js ''action_required'', JStr (js ''Reorder''))]],
         inventory = JObj [(js ''low_stock_count'', JNum 3),
                           (js ''total_stock_value'', JNum 125000)],
         stockoutRisks = JArr
           [JObj [(js ''description'', JStr (js ''Brake pad'')),
                  (js ''days_until_stockout'', JNum 1), (js ''urgency'', JStr (js ''CRITICAL''))],
            JObj [(js ''description'', JStr (js ''Battery cell'')),
                  (js ''days_until_stockout'', JNum 2), (js ''urgency'', JStr (js ''CRITICAL''))],
            JObj [(js ''description'', JStr (js ''Motor'')),
                  (js ''days_until_stockout'', JNum 4), (js ''urgency'', JStr (js ''HIGH''))],
            JObj [(js ''description'', JStr (js ''Tyre'')),
                  (js ''days_until_stockout'', JNum 6), (js ''urgency'', JStr (js ''HIGH''))],
            JObj [(js ''description'', JStr (js ''Controller'')),
                  (js ''days_until_stockout'', JNum 9), (js ''urgency'', JStr (js ''MEDIUM''))],
            JObj [(js ''description'', JStr (js ''Headlight'')),
                  (js ''days_until_stockout'', JNum 11), (js ''urgency'', JStr (js ''MEDIUM''))],
            JObj [(js ''description'', JStr (js ''Kickstand'')),
                  (js ''days_until_stockout'', JNum 13), (js ''urgency'', JStr (js ''LOW''))]],
         suppliers = JArr [JObj [(js ''Supplier_Name'', JStr (js ''Acme'')),
                                 (js ''On_Time_Rate'', JNum 96),
                                 (js ''Lead_Time_Days'', JNum 12)]],
         loading = False\<rparr> = Inr (DashboardView v)
      \<and> length (risk_rows v) = 6
      \<and> description (risk_rows v ! 0) = JStr (js ''Brake pad'')
      \<and> description (risk_rows v ! 1) = JStr (js ''Battery cell'')
      \<and> description (risk_rows v ! 2) = JStr (js ''Motor'')
      \<and> description (risk_rows v ! 3) = JStr (js ''Tyre'')
      \<and> description (risk_rows v ! 4) = JStr (js ''Controller'')
      \<and> description (risk_rows v ! 5) = JStr (js ''Headlight'')
      \<and> days_until_stockout (risk_rows v ! 5) = JNum 11
      \<and> risk_row.key (risk_rows v ! 5) = 5
      \<and> risk_row.className (risk_rows v ! 5) = js ''status-pill medium''"
proof -
  let ?xs = "[JObj [(js ''description'', JStr (js ''Brake pad'')),
                  (js ''days_until_stockout'', JNum 1), (js ''urgency'', JStr (js ''CRITICAL''))],
            JObj [(js ''description'', JStr (js ''Battery cell'')),
                  (js ''days_until_stockout'', JNum 2), (js ''urgency'', JStr (js ''CRITICAL''))],
            JObj [(js ''description'', JStr (js ''Motor'')),
                  (js ''days_until_stockout'', JNum 4), (js ''urgency'', JStr (js ''HIGH''))],
            JObj [(js ''description'', JStr (js ''Tyre'')),
                  (js ''days_until_stockout'', JNum 6), (js ''urgency'', JStr (js ''HIGH''))],
            JObj [(js ''description'', JStr (js ''Controller'')),
                  (js ''days_until_stockout'', JNum 9), (js ''urgency'', JStr (js ''MEDIUM''))],
            JObj [(js ''description'', JStr (js ''Headlight'')),
                  (js ''days_until_stockout'', JNum 11), (js ''urgency'', JStr (js ''MEDIUM''))],
            JObj [(js ''description'', JStr (js ''Kickstand'')),
                  (js ''days_until_stockout'', JNum 13), (js ''urgency'', JStr (js ''LOW''))]]"
  let ?d = "\<lparr>alerts = JArr [JObj [(js ''severity'', JStr (js ''high'')),
                                (js ''alert_type'', JStr (js ''low_stock'')),
                                (js ''message'', JStr (js ''Brake pads below reorder point'')),
                                (js ''action_required'', JStr (js ''Reorder''))]],
         inventory = JObj [(js ''low_stock_count'', JNum 3),
                           (js ''total_stock_value'', JNum 125000)],
         stockoutRisks = JArr ?xs,
         suppliers = JArr [JObj [(js ''Supplier_Name'', JStr (js ''Acme'')),
                                 (js ''On_Time_Rate'', JNum 96),
                                 (js ''Lead_Time_Days'', JNum 12)]],
         loading = False\<rparr>"
  have h: "stockoutRisks ?d = JArr ?xs" by simp
  have typed: "\<not> dashboard_data.loading ?d \<and> well_formed ?d
      \<and> (\<forall>x \<in> set (take 6 ?xs). is_RiskRow x)"
    by (simp add: well_formed_def is_Alert_def is_SupplierRow_def is_InventorySummary_def
          is_RiskRow_def js_def)
  note t = stockout_table_first_six[OF h, of example_runtime]
  from t typed conforming_example obtain v
    where v: "Dashboard_render example_runtime ?d = Inr (DashboardView v)"
    by blast
  with t have len: "length (risk_rows v) = min 6 (length ?xs)"
    and rows: "\<forall>i < length (risk_rows v).
                risk_row.key (risk_rows v ! i) = i
              \<and> member (?xs ! i) (js ''description'') = Inr (description (risk_rows v ! i))
              \<and> member (?xs ! i) (js ''days_until_stockout'')
                  = Inr (days_until_stockout (risk_rows v ! i))
              \<and> member (?xs ! i) (js ''urgency'') = Inr (urgency (risk_rows v ! i))
              \<and> (\<exists>u. urgency (risk_rows v ! i) = JStr u
                    \<and> risk_row.className (risk_rows v ! i)
                        = js ''status-pill '' @ lowercase example_runtime u)"
    by blast+
  from len have six: "length (risk_rows v) = 6" by simp
  from rows six have r0: "description (risk_rows v ! 0) = JStr (js ''Brake pad'')"
    by (auto dest!: spec[of _ 0] simp: js_def)
  from rows six have r1: "description (risk_rows v ! 1) = JStr (js ''Battery cell'')"
    by (auto dest!: spec[of _ 1] simp: js_def)
  from rows six have r2: "description (risk_rows v ! 2) = JStr (js ''Motor'')"
    by (auto dest!: spec[of _ 2] simp: js_def)
  from rows six have r3: "description (risk_rows v ! 3) = JStr (js ''Tyre'')"
    by (auto dest!: spec[of _ 3] simp: js_def)
  from rows six have r4: "description (risk_rows v ! 4) = JStr (js ''Controller'')"
    by (auto dest!: spec[of _ 4] simp: js_def)
  from rows six have r5: "description (risk_rows v ! 5) = JStr (js ''Headlight'')"
    and d5: "days_until_stockout (risk_rows v ! 5) = JNum 11"
    and k5: "risk_row.key (risk_rows v ! 5) = 5"
    and c5: "risk_row.className (risk_rows v ! 5) = js ''status-pill medium''"
    by (auto dest!: spec[of _ 5] simp: js_def example_runtime_def)
  from v six r0 r1 r2 r3 r4 r5 d5 k5 c5 show ?thesis by blast
qed

section \<open>Properties of ChatInterface\<close>

subsection \<open>The two halves of \<open>handleSend\<close>\<close>

lemma handleSend_refused:
  "loading s \<or> blank (input s) \<Longrightarrow> handleSend now s = (s, None)"
  by (auto simp: handleSend_def js_trim_Nil_iff)

lemma handleSend_accepted:
  "\<not> loading s \<Longrightarrow> \<not> blank (input s) \<Longrightarrow>
   handleSend now s =
     (s\<lparr>messages := messages s @ [\<lparr>role = User, content = JStr (input s), timestamp = now,
                           data = None, error = None\<rparr>], input := [], loading := True\<rparr>,
      Some (JObj [(js ''question'', JStr (input s))]))"
  by (simp add: handleSend_def js_trim_Nil_iff)

lemma handleSend_resume_messages:
  "\<exists>a. messages (handleSend_resume now r s) = messages s @ [a] \<and> role a = Assistant"
  by (auto simp: handleSend_resume_def assistantMessage_def errorMessage_def Let_def split: sum.splits)

lemma handleSend_resume_loading: "\<not> loading (handleSend_resume now r s)"
  by (auto simp: handleSend_resume_def Let_def split: sum.splits)




lemma send_cycle_length:
  assumes "\<not> loading s" and "\<not> blank (input s)"
  shows "length (messages (handleSend_resume now' r (fst (handleSend now s))))
           = length (messages s) + 2"
proof -
  let ?s1 = "fst (handleSend now s)"
  from assms have "length (messages ?s1) = length (messages s) + 1"
    by (simp add: handleSend_accepted)
  moreover obtain a where "messages (handleSend_resume now' r ?s1) = messages ?s1 @ [a]"
    using handleSend_resume_messages by blast
  then have "length (messages (handleSend_resume now' r ?s1)) = length (messages ?s1) + 1"
    by simp
  ultimately show ?thesis by simp
qed

subsection \<open>Invariants of a session\<close>

lemma completed_Cons: "completed (e # es) = completed [e] + completed es"
  by (cases e) auto

lemma chat_step_guarded:
  assumes "guarded m" "chat_step m e = Some m'"
  shows "guarded m' \<and> length (messages (ui m')) + in_flight m = length (messages (ui m)) + 2 * completed [e] + in_flight m'"
proof (cases e)
  case (Change v)
  with assms show ?thesis by (auto simp: guarded_def handleExampleClick_def)
next
  case (Send now)
  show ?thesis
  proof (cases "loading (ui m) \<or> blank (input (ui m))")
    case True
    with assms Send show ?thesis by (auto simp: handleSend_refused)
  next
    case False
    with assms Send show ?thesis by (auto simp: handleSend_accepted guarded_def)
  qed
next
  case (Response now r)
  obtain a where "messages (handleSend_resume now r (ui m)) = messages (ui m) @ [a]"
    using handleSend_resume_messages by blast
  with assms Response show ?thesis
    by (auto simp: guarded_def handleSend_resume_loading split: if_splits)
qed

lemma chat_run_guarded:
  "guarded m \<Longrightarrow> chat_run m evs = Some m' \<Longrightarrow>
   guarded m' \<and> length (messages (ui m')) + in_flight m = length (messages (ui m)) + 2 * completed evs + in_flight m'"
proof (induction evs arbitrary: m)
  case Nil
  then show ?case by simp
next
  case (Cons e es)
  then obtain m1 where s: "chat_step m e = Some m1" and r: "chat_run m1 es = Some m'"
    by (auto split: option.splits)
  from chat_step_guarded[OF Cons.prems(1) s] Cons.IH[OF _ r] completed_Cons[of e es]
  show ?case by auto
qed

lemma guarded_init: "guarded (session_init t0)"
  by (simp add: guarded_def session_init_def ChatInterface_init_def)

lemma reachable_guarded: "chat_run (session_init t0) evs = Some m \<Longrightarrow> guarded m"
  using chat_run_guarded[OF guarded_init] by blast

lemma chat_step_prefix: "chat_step m e = Some m' \<Longrightarrow> prefix (messages (ui m)) (messages (ui m'))"
proof (cases e)
  case (Change v)
  then show "chat_step m e = Some m' \<Longrightarrow> ?thesis" by (auto simp: handleExampleClick_def)
next
  case (Send now)
  then show "chat_step m e = Some m' \<Longrightarrow> ?thesis"
    by (auto simp: handleSend_def Let_def split: if_splits)
next
  case (Response now r)
  obtain a where "messages (handleSend_resume now r (ui m)) = messages (ui m) @ [a]"
    using handleSend_resume_messages by blast
  with Response show "chat_step m e = Some m' \<Longrightarrow> ?thesis"
    by (auto split: if_splits)
qed

lemma chat_run_prefix: "chat_run m evs = Some m' \<Longrightarrow> prefix (messages (ui m)) (messages (ui m'))"
proof (induction evs arbitrary: m)
  case Nil
  then show ?case by simp
next
  case (Cons e es)
  then obtain m1 where s: "chat_step m e = Some m1" and r: "chat_run m1 es = Some m'"
    by (auto split: option.splits)
  from chat_step_prefix[OF s] Cons.IH[OF r] show ?case by (rule prefix_order.trans)
qed

lemma reachable_seed:
  "chat_run (session_init t0) evs = Some m \<Longrightarrow>
   prefix (messages (ChatInterface_init t0)) (messages (ui m))"
  using chat_run_prefix[of "session_init t0" evs m] by (simp add: session_init_def)

lemma seed_length: "length (messages (ChatInterface_init t0)) = 1"
  by (simp add: ChatInterface_init_def)

lemma length_one_prefix: "prefix xs ys \<Longrightarrow> length xs = 1 \<Longrightarrow> (length ys = 1) = (ys = xs)"
  by (auto simp: prefix_def)

lemmas chat_eval = session_init_def ChatInterface_init_def handleSend_def handleSend_resume_def
  assistantMessage_def errorMessage_def handleExampleClick_def js_trim_def is_whitespace_def
  blank_def js_def Let_def

subsection \<open>The transcript\<close>

text \<open>
  Claim C3. After any sequence of edits, sends and responses, a session that is idle
  has a transcript of length \<open>1 + 2 \<times> n\<close>, where \<open>n\<close> is the number of completed send
  cycles; while a request is in flight the user's message of the open cycle is there as
  well, one more. A send that is accepted and then completed, by a success or by a
  failure, adds exactly two messages to the transcript.
\<close>

theorem transcript_length_counts_cycles:
  assumes "chat_run (session_init t0) evs = Some m"
  shows "(\<not> loading (ui m) \<longrightarrow> length (messages (ui m)) = 1 + 2 * completed evs)
       \<and> (loading (ui m) \<longrightarrow> length (messages (ui m)) = 2 + 2 * completed evs)
       \<and> (\<not> loading (ui m) \<and> \<not> blank (input (ui m)) \<longrightarrow>
            length (messages (handleSend_resume now' r (fst (handleSend now (ui m)))))
              = length (messages (ui m)) + 2)"
proof -
  from chat_run_guarded[OF guarded_init assms]
  have g: "guarded m"
    and l: "length (messages (ui m)) + in_flight (session_init t0)
              = length (messages (ui (session_init t0))) + 2 * completed evs + in_flight m"
    by blast+
  from l have "length (messages (ui m)) = 1 + 2 * completed evs + in_flight m"
    by (simp add: session_init_def seed_length)
  with g have 1: "\<not> loading (ui m) \<longrightarrow> length (messages (ui m)) = 1 + 2 * completed evs"
    and 2: "loading (ui m) \<longrightarrow> length (messages (ui m)) = 2 + 2 * completed evs"
    by (simp_all add: guarded_def)
  have 3: "\<not> loading (ui m) \<and> \<not> blank (input (ui m)) \<longrightarrow>
            length (messages (handleSend_resume now' r (fst (handleSend now (ui m)))))
              = length (messages (ui m)) + 2"
    using send_cycle_length by blast
  from 1 2 3 show ?thesis by blast
qed

theorem transcript_length_counts_cycles_witness:
  "(\<exists>m. chat_run (session_init 0)
           [Change (js ''How many S2_V1 scooters can we build right now?''), Send 1,
            Response 2 (Inr (JObj [(js ''answer'', JStr (js ''12 units'')),
                                   (js ''data'', JObj [(js ''qty'', JNum 12)])])),
            Change (js ''Show me supplier performance''), Send 3,
            Response 4 (Inl NetworkError),
            Change (js ''again'')] = Some m
        \<and> \<not> loading (ui m) \<and> \<not> blank (input (ui m))
        \<and> length (messages (ui m)) = 5
        \<and> length (messages (handleSend_resume 6 (Inl (HttpStatus 500)) (fst (handleSend 5 (ui m))))) = 7)
   \<and> (\<exists>m. chat_run (session_init 0) [Change (js ''again''), Send 1] = Some m
        \<and> loading (ui m) \<and> length (messages (ui m)) = 2)"
proof -
  let ?evs = "[Change (js ''How many S2_V1 scooters can we build right now?''), Send 1,
            Response 2 (Inr (JObj [(js ''answer'', JStr (js ''12 units'')),
                                   (js ''data'', JObj [(js ''qty'', JNum 12)])])),
            Change (js ''Show me supplier performance''), Send 3,
            Response 4 (Inl NetworkError),
            Change (js ''again'')]"
  have "\<exists>m. chat_run (session_init 0) ?evs = Some m
          \<and> \<not> loading (ui m) \<and> \<not> blank (input (ui m))"
    by (simp add: chat_eval)
  then obtain m where m: "chat_run (session_init 0) ?evs = Some m"
      "\<not> loading (ui m)" "\<not> blank (input (ui m))"
    by blast
  from transcript_length_counts_cycles[OF m(1), of 6 "Inl (HttpStatus 500)" 5] m(2,3)
  have "length (messages (ui m)) = 5
      \<and> length (messages (handleSend_resume 6 (Inl (HttpStatus 500)) (fst (handleSend 5 (ui m))))) = 7"
    by simp
  with m have 1: "\<exists>m. chat_run (session_init 0) ?evs = Some m
        \<and> \<not> loading (ui m) \<and> \<not> blank (input (ui m))
        \<and> length (messages (ui m)) = 5
        \<and> length (messages (handleSend_resume 6 (Inl (HttpStatus 500)) (fst (handleSend 5 (ui m))))) = 7"
    by blast
  have "\<exists>m. chat_run (session_init 0) [Change (js ''again''), Send 1] = Some m \<and> loading (ui m)"
    by (simp add: chat_eval)
  then obtain m' where m': "chat_run (session_init 0) [Change (js ''again''), Send 1] = Some m'"
      "loading (ui m')"
    by blast
  from transcript_length_counts_cycles[OF m'(1)] m'(2)
  have "length (messages (ui m')) = 2" by simp
  with m' have 2: "\<exists>m. chat_run (session_init 0) [Change (js ''again''), Send 1] = Some m
        \<and> loading (ui m) \<and> length (messages (ui m)) = 2"
    by blast
  from 1 2 show ?thesis by blast
qed



text \<open>
  Claim C5. In a session with a request in flight, or with a blank input (empty or
  white space only), \<open>handleSend\<close> changes nothing and posts nothing: the component,
  with its transcript and its input, and the session are as they were before.
\<close>

theorem refused_send_is_noop:
  assumes "chat_run (session_init t0) evs = Some m"
    and "in_flight m \<noteq> 0 \<or> blank (input (ui m))"
  shows "handleSend now (ui m) = (ui m, None) \<and> chat_step m (Send now) = Some m"
proof -
  from reachable_guarded[OF assms(1)] assms(2) have "loading (ui m) \<or> blank (input (ui m))"
    by (auto simp: guarded_def split: if_splits)
  then have "handleSend now (ui m) = (ui m, None)" by (rule handleSend_refused)
  then show ?thesis by simp
qed

theorem refused_send_is_noop_witness:
  "(\<exists>m. chat_run (session_init 0) [Change (js ''again''), Send 1, Change (js ''more'')] = Some m
        \<and> in_flight m \<noteq> 0 \<and> chat_step m (Send 2) = Some m)
   \<and> (\<exists>m. chat_run (session_init 0) [Change (js ''   '')] = Some m
        \<and> blank (input (ui m)) \<and> handleSend 2 (ui m) = (ui m, None))"
proof -
  have "\<exists>m. chat_run (session_init 0) [Change (js ''again''), Send 1, Change (js ''more'')] = Some m
          \<and> in_flight m \<noteq> 0"
    by (simp add: chat_eval)
  then obtain m where m: "chat_run (session_init 0) [Change (js ''again''), Send 1, Change (js ''more'')] = Some m"
      "in_flight m \<noteq> 0"
    by blast
  from refused_send_is_noop[OF m(1), of 2] m(2) have "chat_step m (Send 2) = Some m" by blast
  with m have 1: "\<exists>m. chat_run (session_init 0) [Change (js ''again''), Send 1, Change (js ''more'')] = Some m
        \<and> in_flight m \<noteq> 0 \<and> chat_step m (Send 2) = Some m"
    by blast
  have "\<exists>m. chat_run (session_init 0) [Change (js ''   '')] = Some m \<and> blank (input (ui m))"
    by (simp add: chat_eval)
  then obtain m' where m': "chat_run (session_init 0) [Change (js ''   '')] = Some m'"
      "blank (input (ui m'))"
    by blast
  from refused_send_is_noop[OF m'(1), of 2] m'(2) have "handleSend 2 (ui m') = (ui m', None)" by blast
  with m' have 2: "\<exists>m. chat_run (session_init 0) [Change (js ''   '')] = Some m
        \<and> blank (input (ui m)) \<and> handleSend 2 (ui m) = (ui m, None)"
    by blast
  from 1 2 show ?thesis by blast
qed

text \<open>
  Claim C8. In every state of a session the example questions are rendered if and
  only if the transcript has length one, which is if and only if the transcript is
  still the single greeting the session started with. Once they are not rendered, they
  are not rendered in any later state of the session.
\<close>

theorem examples_until_first_exchange:
  assumes "chat_run (session_init t0) evs = Some m" and "chat_run m evs' = Some m'"
  shows "(examples_panel (ui m) = Some EXAMPLE_QUESTIONS) = (length (messages (ui m)) = 1)
       \<and> (examples_panel (ui m) \<noteq> None) = (messages (ui m) = messages (ChatInterface_init t0))
       \<and> (examples_panel (ui m) = None \<longrightarrow> examples_panel (ui m') = None)"
proof -
  have 1: "(examples_panel (ui m) = Some EXAMPLE_QUESTIONS) = (length (messages (ui m)) = 1)"
    by (simp add: examples_panel_def)
  have 2: "(examples_panel (ui m) \<noteq> None) = (messages (ui m) = messages (ChatInterface_init t0))"
    using length_one_prefix[OF reachable_seed[OF assms(1)] seed_length]
    by (simp add: examples_panel_def)
  have "1 \<le> length (messages (ui m))"
    using reachable_seed[OF assms(1)] seed_length[of t0] by (auto dest: prefix_length_le)
  moreover have "length (messages (ui m)) \<le> length (messages (ui m'))"
    using chat_run_prefix[OF assms(2)] by (rule prefix_length_le)
  ultimately have 3: "examples_panel (ui m) = None \<longrightarrow> examples_panel (ui m') = None"
    by (auto simp: examples_panel_def split: if_splits)
  from 1 2 3 show ?thesis by blast
qed

theorem examples_until_first_exchange_witness:
  "\<exists>m m'. chat_run (session_init 0) [Change (js ''again''), Send 1] = Some m
        \<and> chat_run m [Response 2 (Inl NetworkError), Change (js ''more'')] = Some m'
        \<and> examples_panel (ui m) = None \<and> examples_panel (ui m') = None"
proof -
  have "\<exists>m. chat_run (session_init 0) [Change (js ''again''), Send 1] = Some m
          \<and> examples_panel (ui m) = None
          \<and> (\<exists>m'. chat_run m [Response 2 (Inl NetworkError), Change (js ''more'')] = Some m')"
    by (simp add: chat_eval examples_panel_def)
  then obtain m m' where m: "chat_run (session_init 0) [Change (js ''again''), Send 1] = Some m"
      "examples_panel (ui m) = None"
      "chat_run m [Response 2 (Inl NetworkError), Change (js ''more'')] = Some m'"
    by blast
  from examples_until_first_exchange[OF m(1) m(3)] m(2) have "examples_panel (ui m') = None"
    by blast
  with m show ?thesis by blast
qed

text \<open>
  Claim C9. In every state of a session the transcript is not empty and starts with
  the greeting it was seeded with, and every event leaves the previous transcript as a
  prefix of the new one: no message is modified or deleted.
\<close>

theorem transcript_append_only:
  assumes "chat_run (session_init t0) evs = Some m" and "chat_step m e = Some m'"
  shows "messages (ui m) \<noteq> []
       \<and> prefix (messages (ChatInterface_init t0)) (messages (ui m))
       \<and> prefix (messages (ui m)) (messages (ui m'))
       \<and> messages (ui m') \<noteq> []"
proof -
  have seed: "prefix (messages (ChatInterface_init t0)) (messages (ui m))"
    using assms(1) by (rule reachable_seed)
  have ne: "messages (ui m) \<noteq> []"
    using prefix_length_le[OF seed] seed_length[of t0] by auto
  have ext: "prefix (messages (ui m)) (messages (ui m'))"
    using assms(2) by (rule chat_step_prefix)
  have "messages (ui m') \<noteq> []"
    using prefix_length_le[OF ext] ne by auto
  with seed ne ext show ?thesis by blast
qed

theorem transcript_append_only_witness:
  "\<exists>m m'. chat_run (session_init 0) [Change (js ''again''), Send 1] = Some m
        \<and> chat_step m (Response 2 (Inl NetworkError)) = Some m'
        \<and> messages (ui m) \<noteq> [] \<and> prefix (messages (ui m)) (messages (ui m'))"
proof -
  have "\<exists>m. chat_run (session_init 0) [Change (js ''again''), Send 1] = Some m
          \<and> (\<exists>m'. chat_step m (Response 2 (Inl NetworkError)) = Some m')"
    by (simp add: chat_eval)
  then obtain m m' where m: "chat_run (session_init 0) [Change (js ''again''), Send 1] = Some m"
      "chat_step m (Response 2 (Inl NetworkError)) = Some m'"
    by blast
  from transcript_append_only[OF m] m show ?thesis by blast
qed

end
